theory Spec2Isabelle
  imports Complex_Main "HOL-Library.Multiset"
begin

section \<open>Points and errors\<close>

text \<open>
  Coordinates are modelled as real numbers: the double-precision arithmetic of the source is
  idealised to exact arithmetic. The one place where the idealisation would hide what the
  program does is a division by zero, which in the source yields an IEEE infinity or NaN and
  in HOL would silently yield 0; every division of the source is therefore guarded in the
  model and a zero divisor gives the error \<open>NonFinite\<close>. \<open>StructuralError\<close> stands for
  a call of \<open>dolfin_error\<close>, which throws.
\<close>

datatype error = StructuralError | NonFinite

text \<open>
  The class \<open>Point\<close> (three double coordinates; points of a mesh of lower geometric
  dimension have their remaining coordinates set to zero) with the operations of it that the
  modelled functions call.
\<close>

datatype Point = Point (px: real) (py: real) (pz: real)


definition psub :: "Point \<Rightarrow> Point \<Rightarrow> Point" where
  "psub p q = Point (px p - px q) (py p - py q) (pz p - pz q)"


definition dot :: "Point \<Rightarrow> Point \<Rightarrow> real" where
  "dot p q = px p * px q + py p * py q + pz p * pz q"

definition cross :: "Point \<Rightarrow> Point \<Rightarrow> Point" where
  "cross p q = Point (py p * pz q - pz p * py q)
                     (pz p * px q - px p * pz q)
                     (px p * py q - py p * px q)"



section \<open>TriangleCell: point to triangle distance\<close>


section \<open>Mesh, topology and geometry\<close>

text \<open>
  The cell types of \<open>CellType::Type\<close> that the modelled code distinguishes.
\<close>

datatype CellType = CellType_point | CellType_interval | CellType_triangle | CellType_tetrahedron

text \<open>
  A mesh: its cell type, the topological dimension, the geometry (dimension and the
  coordinate array, read as \<open>geometry_x m v i\<close> for coordinate \<open>i\<close> of vertex \<open>v\<close>),
  and the topology, where \<open>topology m (d0, d1)\<close> is the connectivity table holding, for
  each entity of dimension \<open>d0\<close>, the indices of its incident entities of dimension
  \<open>d1\<close>. A connectivity that has not been computed is the empty table.
  \<open>size_global m (d0, d1) e\<close> is the number of global connections of entity \<open>e\<close>.
\<close>

record Mesh =
  cell_type :: CellType
  topology_dim :: nat
  geometry_dim :: nat
  num_vertices :: nat
  geometry_x :: "nat \<Rightarrow> nat \<Rightarrow> real"
  topology :: "nat \<times> nat \<Rightarrow> nat list list"
  size_global :: "nat \<times> nat \<Rightarrow> nat \<Rightarrow> nat"

text \<open>A mesh entity is a view: the mesh, a topological dimension and an index.\<close>

record MeshEntity =
  mesh :: Mesh
  dim :: nat
  index :: nat

definition entities :: "MeshEntity \<Rightarrow> nat \<Rightarrow> nat list" where
  "entities e d = topology (mesh e) (dim e, d) ! index e"



text \<open>
  \<open>MeshGeometry::point\<close>: the vertex as a \<open>Point\<close>, the coordinates beyond the
  geometric dimension being zero.
\<close>

definition geometry_point :: "Mesh \<Rightarrow> nat \<Rightarrow> Point" where
  "geometry_point m v =
     Point (if 0 < geometry_dim m then geometry_x m v 0 else 0)
           (if 1 < geometry_dim m then geometry_x m v 1 else 0)
           (if 2 < geometry_dim m then geometry_x m v 2 else 0)"

definition Cell :: "Mesh \<Rightarrow> nat \<Rightarrow> MeshEntity" where
  "Cell m i = \<lparr>mesh = m, dim = topology_dim m, index = i\<rparr>"

definition Facet :: "Mesh \<Rightarrow> nat \<Rightarrow> MeshEntity" where
  "Facet m i = \<lparr>mesh = m, dim = topology_dim m - 1, index = i\<rparr>"

section \<open>TriangleCell: volume, diameter, radius ratio, containment\<close>







section \<open>TriangleCell: ordering of the local entities of a cell\<close>

text \<open>
  Modelled from the spec: \<open>CellType::sort_entities\<close> is called by
  \<open>TriangleCell::order\<close> and is not among the sources. The specification gives its
  effect as "ascending global-index order for vertices": the first \<open>n\<close> entries of the
  array are sorted by the global index that \<open>local_to_global_vertex_indices\<close> assigns
  to them.
\<close>

definition sort_entities :: "nat \<Rightarrow> nat list \<Rightarrow> nat list \<Rightarrow> nat list" where
  "sort_entities n local_vertices local_to_global_vertex_indices =
     sort_key (\<lambda>v. local_to_global_vertex_indices ! v) (take n local_vertices)
       @ drop n local_vertices"

text \<open>Writing one row of a connectivity table in place.\<close>

definition set_row :: "Mesh \<Rightarrow> nat \<times> nat \<Rightarrow> nat \<Rightarrow> nat list \<Rightarrow> Mesh" where
  "set_row m d e row = m\<lparr>topology := (topology m)(d := (topology m d)[e := row])\<rparr>"

text \<open>
  One round of the outer loop over the vertices of the cell in the third part of
  \<open>TriangleCell::order\<close>: the inner loop looks for the first edge, from position
  \<open>i\<close> on, that does not contain vertex \<open>i\<close> of the cell, swaps it to position
  \<open>i\<close> and stops.
\<close>

definition order_edges_step :: "nat list list \<Rightarrow> nat list \<Rightarrow> nat \<Rightarrow> nat list \<Rightarrow> nat list" where
  "order_edges_step t10 cell_vertices i cell_edges =
     (case find (\<lambda>j. count_list (take 2 (t10 ! (cell_edges ! j))) (cell_vertices ! i) = 0)
                [i..<3] of
        None \<Rightarrow> cell_edges
      | Some j \<Rightarrow> cell_edges[i := cell_edges ! j, j := cell_edges ! i])"

definition order_edges :: "nat list list \<Rightarrow> nat list \<Rightarrow> nat list \<Rightarrow> nat list" where
  "order_edges t10 cell_vertices cell_edges =
     fold (order_edges_step t10 cell_vertices) [0..<3] cell_edges"

definition order :: "MeshEntity \<Rightarrow> nat list \<Rightarrow> Mesh" where
  "order cell local_to_global_vertex_indices =
    (let m0 = mesh cell;
         m1 = (if topology m0 (1, 0) \<noteq> [] then
                 fold (\<lambda>i m. let e = entities cell 1 ! i
                             in set_row m (1, 0) e
                                  (sort_entities 2 (topology m (1, 0) ! e)
                                     local_to_global_vertex_indices))
                      [0..<3] m0
               else m0);
         m2 = (if topology m1 (2, 0) \<noteq> [] then
                 set_row m1 (dim cell, 0) (index cell)
                   (sort_entities 3 (entities (cell\<lparr>mesh := m1\<rparr>) 0)
                      local_to_global_vertex_indices)
               else m1)
     in if topology m2 (2, 1) \<noteq> [] then
          let cell_vertices = entities (cell\<lparr>mesh := m2\<rparr>) 0;
              cell_edges = entities (cell\<lparr>mesh := m2\<rparr>) 1
          in set_row m2 (dim cell, 1) (index cell)
               (fold (order_edges_step (topology m2 (1, 0)) cell_vertices) [0..<3] cell_edges)
        else m2)"

text \<open>
  The shape of the connectivity tables that \<open>TriangleCell::order\<close> relies on when it is
  called for a cell: the cell has dimension 2 and three vertices; the cell-edge table is
  present when the edge-vertex table is (the assertion of the source); and when the cell has
  edges they are three rows of two vertices each in the edge-vertex table.
\<close>

definition triangle_cell_wf :: "MeshEntity \<Rightarrow> bool" where
  "triangle_cell_wf cell \<longleftrightarrow>
     (let T = topology (mesh cell); i = index cell
      in dim cell = 2 \<and>
         i < length (T (2, 0)) \<and> length (T (2, 0) ! i) = 3 \<and>
         (T (1, 0) \<noteq> [] \<longrightarrow> T (2, 1) \<noteq> []) \<and>
         (T (2, 1) \<noteq> [] \<longrightarrow>
            i < length (T (2, 1)) \<and> length (T (2, 1) ! i) = 3 \<and>
            (\<forall>e \<in> set (T (2, 1) ! i). e < length (T (1, 0)) \<and> length (T (1, 0) ! e) = 2)))"

text \<open>
  The three parts of \<open>order\<close> written as one update of the topology: the rows of the
  edges of the cell sorted, the vertices of the cell sorted, the edges of the cell ordered.
\<close>

definition sort_rows :: "nat list \<Rightarrow> nat list \<Rightarrow> nat list list \<Rightarrow> nat list list" where
  "sort_rows g es t = fold (\<lambda>e t. t[e := sort_entities 2 (t ! e) g]) es t"

definition ordered_topology :: "MeshEntity \<Rightarrow> nat list \<Rightarrow> nat \<times> nat \<Rightarrow> nat list list" where
  "ordered_topology cell g =
     (let T = topology (mesh cell);
          i = index cell;
          ce = T (2, 1) ! i;
          R1 = sort_rows g [ce ! 0, ce ! 1, ce ! 2] (T (1, 0));
          R2 = (T (2, 0))[i := sort_entities 3 (T (2, 0) ! i) g];
          R3 = (T (2, 1))[i := order_edges R1 (R2 ! i) ce]
      in T((1, 0) := R1, (2, 0) := R2, (2, 1) := R3))"

text \<open>Vertex \<open>i\<close> of the cell is not a vertex of the edge \<open>e\<close>.\<close>

definition non_incident :: "nat list list \<Rightarrow> nat list \<Rightarrow> nat \<Rightarrow> nat \<Rightarrow> bool" where
  "non_incident t cv e i \<longleftrightarrow> count_list (take 2 (t ! e)) (cv ! i) = 0"

section \<open>BoundaryComputation\<close>

text \<open>
  The connectivity between facets, cells and vertices is read from the tables of the mesh as
  computed; the entity creation behind \<open>mesh.init\<close> is not part of the model.

  \<open>BoundaryComputation::reorder\<close>. The first loop looks for the vertex of the cell that
  is not a vertex of the facet; \<open>vertex\<close> keeps the last cell vertex visited.
\<close>

fun opposite_vertex :: "nat list \<Rightarrow> nat list \<Rightarrow> nat \<Rightarrow> nat" where
  "opposite_vertex [] facet_vertices vertex = vertex"
| "opposite_vertex (cv # cell_vertices) facet_vertices vertex =
     (if cv \<notin> set facet_vertices then cv
      else opposite_vertex cell_vertices facet_vertices cv)"

definition reorder :: "nat list \<Rightarrow> MeshEntity \<Rightarrow> error + nat list" where
  "reorder vertices facet =
    (let m = mesh facet;
         cell = Cell m (entities facet (topology_dim m) ! 0);
         vertex = opposite_vertex (entities cell 0) (entities facet 0) 0;
         p = geometry_point m vertex
     in case cell_type m of
          CellType_interval \<Rightarrow> Inr vertices
        | CellType_triangle \<Rightarrow>
            let p0 = geometry_point m (entities facet 0 ! 0);
                p1 = geometry_point m (entities facet 0 ! 1);
                v = psub p1 p0;
                n = Point (py v) (- px v) 0
            in if dot n (psub p0 p) < 0
               then Inr (vertices[0 := vertices ! 1, 1 := vertices ! 0])
               else Inr vertices
        | CellType_tetrahedron \<Rightarrow>
            let p0 = geometry_point m (entities facet 0 ! 0);
                p1 = geometry_point m (entities facet 0 ! 1);
                p2 = geometry_point m (entities facet 0 ! 2);
                v1 = psub p1 p0;
                v2 = psub p2 p0;
                n = cross v1 v2
            in if dot n (psub p0 p) < 0
               then Inr (vertices[0 := vertices ! 1, 1 := vertices ! 0])
               else Inr vertices
        | _ \<Rightarrow> Inl StructuralError)"










section \<open>Closest cell\<close>







section \<open>Notions of the specification\<close>






text \<open>The elements of a list in the order of their first occurrence.\<close>

definition first_occurrences :: "'a list \<Rightarrow> 'a list" where
  "first_occurrences xs = rev (remdups (rev xs))"




section \<open>Notions for the boundary computation\<close>


















section \<open>Example meshes\<close>


text \<open>
  The same mesh before ordering: local vertex and edge lists in an arbitrary order.
\<close>

definition scrambled_mesh :: Mesh where
  "scrambled_mesh =
     \<lparr>cell_type = CellType_triangle, topology_dim = 2, geometry_dim = 2, num_vertices = 4,
      geometry_x = (\<lambda>v i. [[0, 0], [1, 0], [0, 1], [1, 1]] ! v ! i),
      topology = (\<lambda>d. if d = (2, 0) then [[3, 0, 1], [3, 2, 0]]
                       else if d = (1, 0) then [[3, 1], [0, 3], [1, 0], [2, 3], [0, 2]]
                       else if d = (2, 1) then [[2, 0, 1], [3, 1, 4]]
                       else if d = (1, 2) then [[0], [0, 1], [0], [1], [1]]
                       else []),
      size_global = (\<lambda>d e. if d = (1, 2) then [1, 2, 1, 1, 1] ! e else 0)\<rparr>"


text \<open>The unit interval cut into two intervals.\<close>

definition interval_mesh :: Mesh where
  "interval_mesh =
     \<lparr>cell_type = CellType_interval, topology_dim = 1, geometry_dim = 1, num_vertices = 3,
      geometry_x = (\<lambda>v i. [[0], [1 / 2], [1]] ! v ! i),
      topology = (\<lambda>d. if d = (1, 0) then [[0, 1], [1, 2]]
                       else if d = (0, 1) then [[0], [0, 1], [1]]
                       else if d = (0, 0) then [[0], [1], [2]]
                       else []),
      size_global = (\<lambda>d e. if d = (0, 1) then [1, 2, 1] ! e else 0)\<rparr>"



section \<open>Vector algebra\<close>


lemma dot_psub_left: "dot (psub a b) c = dot a c - dot b c"
  by (simp add: dot_def psub_def algebra_simps)

lemma dot_psub_right: "dot c (psub a b) = dot c a - dot c b"
  by (simp add: dot_def psub_def algebra_simps)
















section \<open>The area of a triangle\<close>






section \<open>Degenerate cells\<close>





section \<open>The distance to a triangle is not negative\<close>






section \<open>Orientation of boundary facets\<close>

text \<open>
  C10. When the cell type of the mesh is interval, \<open>reorder\<close> returns the vertex list of
  the boundary cell as it received it.
\<close>

theorem reorder_interval:
  assumes "cell_type (mesh facet) = CellType_interval"
  shows "reorder vertices facet = Inr vertices"
  using assms by (simp add: reorder_def Let_def)

theorem reorder_interval_witness:
  "cell_type (mesh (Facet interval_mesh 2)) = CellType_interval \<and>
   reorder [1] (Facet interval_mesh 2) = Inr [1]"
proof -
  have h: "cell_type (mesh (Facet interval_mesh 2)) = CellType_interval"
    by (simp add: Facet_def interval_mesh_def)
  show ?thesis using h reorder_interval [OF h, of "[1]"] by simp
qed

text \<open>A vertex list that \<open>reorder\<close> changes belongs to a triangle or tetrahedron mesh.\<close>

lemma reorder_changes_only_simplices:
  assumes "reorder vertices facet = Inr vs" "vs \<noteq> vertices"
  shows "cell_type (mesh facet) = CellType_triangle
       \<or> cell_type (mesh facet) = CellType_tetrahedron"
  using assms by (auto simp: reorder_def Let_def split: CellType.splits if_splits)

section \<open>Containment in a triangle\<close>






section \<open>The distance to a triangle\<close>




































section \<open>Ordering a cell twice\<close>

lemma upt3: "[0..<3] = [0, 1, 2]" "[1..<3] = [1, 2]" "[2..<3] = [2]"
  by (simp_all add: upt_rec)

lemma sort_entities_idem:
  "sort_entities n (sort_entities n xs g) g = sort_entities n xs g"
proof -
  have l: "length (sort_key (\<lambda>v. g ! v) (take n xs)) = min (length xs) n" by simp
  show ?thesis
  proof (cases "n \<le> length xs")
    case True
    then have "length (sort_key (\<lambda>v. g ! v) (take n xs)) = n" by simp
    then show ?thesis
      by (simp add: sort_entities_def sort_key_id_if_sorted)
  next
    case False
    then show ?thesis
      by (simp add: sort_entities_def sort_key_id_if_sorted)
  qed
qed

lemma mset_sort_entities: "mset (sort_entities n xs g) = mset xs"
proof -
  have "mset (sort_entities n xs g) = mset (take n xs) + mset (drop n xs)"
    by (simp add: sort_entities_def)
  also have "\<dots> = mset (take n xs @ drop n xs)" by (simp only: mset_append)
  also have "\<dots> = mset xs" by (simp only: append_take_drop_id)
  finally show ?thesis .
qed

lemma length_sort_entities: "length (sort_entities n xs g) = length xs"
  by (simp add: sort_entities_def)

lemma sort_rows_Nil [simp]: "sort_rows g es [] = []"
  by (induction es) (simp_all add: sort_rows_def)

lemma length_sort_rows [simp]: "length (sort_rows g es t) = length t"
  by (induction es arbitrary: t) (simp_all add: sort_rows_def)

lemma topology_update_triv:
  "topology m k = v \<Longrightarrow> m\<lparr>topology := (topology m)(k := v)\<rparr> = m"
  by (cases m) auto

lemma order_explicit:
  assumes "dim cell = 2"
  shows "order cell g = (mesh cell)\<lparr>topology := ordered_topology cell g\<rparr>"
proof -
  define m0 where "m0 = mesh cell"
  define ce where "ce = topology m0 (2, 1) ! index cell"
  define R1 where "R1 = sort_rows g [ce ! 0, ce ! 1, ce ! 2] (topology m0 (1, 0))"
  define m1 where "m1 = m0\<lparr>topology := (topology m0)((1, 0) := R1)\<rparr>"
  have f: "fold (\<lambda>i m. set_row m (1, 0) (entities cell 1 ! i)
                          (sort_entities 2 (topology m (1, 0) ! (entities cell 1 ! i)) g))
             [0..<3] m0 = m1"
    using assms
    by (simp add: upt3 set_row_def sort_rows_def m1_def R1_def ce_def entities_def m0_def Let_def)
  have "(if topology m0 (1, 0) \<noteq> [] then m1 else m0) = m1"
    by (auto simp: m1_def R1_def topology_update_triv)
  then have s1: "(if topology m0 (1, 0) \<noteq> [] then
                fold (\<lambda>i m. set_row m (1, 0) (entities cell 1 ! i)
                          (sort_entities 2 (topology m (1, 0) ! (entities cell 1 ! i)) g))
                  [0..<3] m0
              else m0) = m1"
    by (simp only: f)
  define R2 where "R2 = (topology m0 (2, 0))[index cell := sort_entities 3 (topology m0 (2, 0) ! index cell) g]"
  define m2 where "m2 = m0\<lparr>topology := (topology m0)((1, 0) := R1, (2, 0) := R2)\<rparr>"
  have s2: "(if topology m1 (2, 0) \<noteq> [] then
               set_row m1 (dim cell, 0) (index cell)
                 (sort_entities 3 (entities (cell\<lparr>mesh := m1\<rparr>) 0) g)
             else m1) = m2"
  proof (cases "topology m0 (2, 0) = []")
    case True
    then have "(topology m0)((1, 0) := R1, (2, 0) := R2) = (topology m0)((1, 0) := R1)"
      by (auto simp: R2_def fun_eq_iff)
    then have "m2 = m1" by (simp add: m1_def m2_def)
    with True show ?thesis by (simp add: m1_def)
  next
    case False
    then show ?thesis
      using assms by (simp add: m1_def m2_def R2_def set_row_def entities_def)
  qed
  define R3 where "R3 = (topology m0 (2, 1))[index cell := order_edges R1 (R2 ! index cell) ce]"
  have s3: "(if topology m2 (2, 1) \<noteq> [] then
          set_row m2 (dim cell, 1) (index cell)
               (fold (order_edges_step (topology m2 (1, 0)) (entities (cell\<lparr>mesh := m2\<rparr>) 0))
                  [0..<3] (entities (cell\<lparr>mesh := m2\<rparr>) 1))
        else m2) = m0\<lparr>topology := (topology m0)((1, 0) := R1, (2, 0) := R2, (2, 1) := R3)\<rparr>"
  proof (cases "topology m0 (2, 1) = []")
    case True
    then have "(topology m0)((1, 0) := R1, (2, 0) := R2, (2, 1) := R3)
             = (topology m0)((1, 0) := R1, (2, 0) := R2)"
      by (auto simp: R3_def fun_eq_iff)
    with True show ?thesis by (simp add: m2_def)
  next
    case False
    then show ?thesis
      using assms
      by (simp add: m2_def R3_def set_row_def entities_def order_edges_def ce_def Let_def)
  qed
  have "order cell g = m0\<lparr>topology := (topology m0)((1, 0) := R1, (2, 0) := R2, (2, 1) := R3)\<rparr>"
    apply (simp only: order_def Let_def)
    apply (simp only: m0_def [symmetric])
    apply (simp only: s1)
    apply (simp only: s2)
    apply (simp only: s3)
    done
  then show ?thesis
    by (simp add: ordered_topology_def Let_def m0_def R1_def R2_def R3_def ce_def)
qed

lemma length3E:
  assumes "length xs = 3"
  obtains x0 x1 x2 where "xs = [x0, x1, x2]"
  using assms by (auto simp: length_Suc_conv numeral_3_eq_3)

lemma upt3': "[Suc 0..<3] = [Suc 0, 2]"
  by (simp add: upt_rec)

lemma step0:
  "order_edges_step t cv 0 [e0, e1, e2] =
     (if non_incident t cv e0 0 then [e0, e1, e2]
      else if non_incident t cv e1 0 then [e1, e0, e2]
      else if non_incident t cv e2 0 then [e2, e1, e0]
      else [e0, e1, e2])"
  by (simp add: order_edges_step_def upt3 non_incident_def)

lemma step1:
  "order_edges_step t cv (Suc 0) [e0, e1, e2] =
     (if non_incident t cv e1 (Suc 0) then [e0, e1, e2]
      else if non_incident t cv e2 (Suc 0) then [e0, e2, e1]
      else [e0, e1, e2])"
  by (simp add: order_edges_step_def upt3' non_incident_def)

lemma step2:
  "order_edges_step t cv 2 [e0, e1, e2] = [e0, e1, e2]"
  by (simp add: order_edges_step_def upt3 non_incident_def)

lemma order_edges_steps:
  "order_edges t cv ce =
     order_edges_step t cv 2 (order_edges_step t cv (Suc 0) (order_edges_step t cv 0 ce))"
  by (simp add: order_edges_def upt3)

lemma order_edges_explicit:
  "order_edges t cv [e0, e1, e2] =
     (if non_incident t cv e0 0 then
        (if non_incident t cv e1 (Suc 0) then [e0, e1, e2]
         else if non_incident t cv e2 (Suc 0) then [e0, e2, e1] else [e0, e1, e2])
      else if non_incident t cv e1 0 then
        (if non_incident t cv e0 (Suc 0) then [e1, e0, e2]
         else if non_incident t cv e2 (Suc 0) then [e1, e2, e0] else [e1, e0, e2])
      else if non_incident t cv e2 0 then
        (if non_incident t cv e1 (Suc 0) then [e2, e1, e0]
         else if non_incident t cv e0 (Suc 0) then [e2, e0, e1] else [e2, e1, e0])
      else
        (if non_incident t cv e1 (Suc 0) then [e0, e1, e2]
         else if non_incident t cv e2 (Suc 0) then [e0, e2, e1] else [e0, e1, e2]))"
  by (simp add: order_edges_steps step0 step1 step2)

lemma order_edges_idem:
  assumes "length ce = 3"
  shows "order_edges t cv (order_edges t cv ce) = order_edges t cv ce"
proof -
  from assms obtain e0 e1 e2 where ce: "ce = [e0, e1, e2]" by (rule length3E)
  show ?thesis
    unfolding ce
    by (cases "non_incident t cv e0 0"; cases "non_incident t cv e1 0";
        cases "non_incident t cv e2 0"; cases "non_incident t cv e0 (Suc 0)";
        cases "non_incident t cv e1 (Suc 0)"; cases "non_incident t cv e2 (Suc 0)";
        simp add: order_edges_explicit)
qed

lemma mset_order_edges:
  assumes "length ce = 3"
  shows "mset (order_edges t cv ce) = mset ce"
proof -
  from assms obtain e0 e1 e2 where ce: "ce = [e0, e1, e2]" by (rule length3E)
  show ?thesis
    unfolding ce order_edges_explicit by simp
qed

lemma sort_rows_Cons: "sort_rows g (e # es) t = sort_rows g es (t[e := sort_entities 2 (t ! e) g])"
  by (simp add: sort_rows_def)

lemma sort_rows_keeps_sorted:
  assumes "e < length t" "sort_entities 2 (t ! e) g = t ! e"
  shows "sort_entities 2 (sort_rows g es t ! e) g = sort_rows g es t ! e"
  using assms
proof (induction es arbitrary: t)
  case Nil
  then show ?case by (simp add: sort_rows_def)
next
  case (Cons x es)
  have "sort_entities 2 (t[x := sort_entities 2 (t ! x) g] ! e) g
          = t[x := sort_entities 2 (t ! x) g] ! e"
    using Cons.prems by (cases "x = e") (simp_all add: sort_entities_idem)
  with Cons.prems(1) show ?case
    unfolding sort_rows_Cons by (intro Cons.IH) simp_all
qed

lemma sort_rows_sorts:
  assumes "e \<in> set es" "e < length t"
  shows "sort_entities 2 (sort_rows g es t ! e) g = sort_rows g es t ! e"
  using assms
proof (induction es arbitrary: t)
  case Nil
  then show ?case by simp
next
  case (Cons x es)
  show ?case
  proof (cases "x = e")
    case True
    have "sort_entities 2 (t[x := sort_entities 2 (t ! x) g] ! e) g
            = t[x := sort_entities 2 (t ! x) g] ! e"
      using True Cons.prems(2) by (simp add: sort_entities_idem)
    with Cons.prems(2) show ?thesis
      unfolding sort_rows_Cons by (intro sort_rows_keeps_sorted) simp_all
  next
    case False
    with Cons.prems have "e \<in> set es" by simp
    with Cons.prems(2) show ?thesis
      unfolding sort_rows_Cons by (intro Cons.IH) simp_all
  qed
qed

lemma sort_rows_id:
  assumes "\<forall>e \<in> set es. e < length t \<longrightarrow> sort_entities 2 (t ! e) g = t ! e"
  shows "sort_rows g es t = t"
  using assms
proof (induction es)
  case Nil
  then show ?case by (simp add: sort_rows_def)
next
  case (Cons x es)
  have "t[x := sort_entities 2 (t ! x) g] = t"
  proof (cases "x < length t")
    case True
    with Cons.prems have "sort_entities 2 (t ! x) g = t ! x" by simp
    then show ?thesis by simp
  next
    case False
    then show ?thesis by (simp add: list_update_beyond)
  qed
  with Cons show ?case unfolding sort_rows_Cons by simp
qed

lemma mset_sort_rows: "mset (sort_rows g es t ! e) = mset (t ! e)"
proof (induction es arbitrary: t)
  case Nil
  then show ?case by (simp add: sort_rows_def)
next
  case (Cons x es)
  have "mset (t[x := sort_entities 2 (t ! x) g] ! e) = mset (t ! e)"
  proof (cases "x = e \<and> e < length t")
    case True
    then show ?thesis by (simp add: mset_sort_entities)
  next
    case False
    then show ?thesis by (cases "x = e") (simp_all add: list_update_beyond)
  qed
  with Cons.IH [of "t[x := sort_entities 2 (t ! x) g]"] show ?case
    unfolding sort_rows_Cons by simp
qed

lemma nth3_in_set:
  assumes "length xs = 3" "k < 3"
  shows "xs ! k \<in> set xs"
  using assms by simp

lemma set3: 
  assumes "length xs = 3"
  shows "set xs = {xs ! 0, xs ! 1, xs ! 2}"
proof -
  from assms obtain a b c where "xs = [a, b, c]" by (rule length3E)
  then show ?thesis by auto
qed

lemma ordered_topology_fixed:
  assumes d: "dim cell = 2"
    and l: "index cell < length (topology (mesh cell) (2, 1)) \<Longrightarrow>
            length (topology (mesh cell) (2, 1) ! index cell) = 3"
  shows "ordered_topology (cell\<lparr>mesh := (mesh cell)\<lparr>topology := ordered_topology cell g\<rparr>\<rparr>) g
           = ordered_topology cell g"
proof -
  define T where "T = topology (mesh cell)"
  define i where "i = index cell"
  define ce where "ce = T (2, 1) ! i"
  define R1 where "R1 = sort_rows g [ce ! 0, ce ! 1, ce ! 2] (T (1, 0))"
  define R2 where "R2 = (T (2, 0))[i := sort_entities 3 (T (2, 0) ! i) g]"
  define R3 where "R3 = (T (2, 1))[i := order_edges R1 (R2 ! i) ce]"
  define ce' where "ce' = R3 ! i"
  have T': "ordered_topology cell g = T((1, 0) := R1, (2, 0) := R2, (2, 1) := R3)"
    by (simp add: ordered_topology_def Let_def T_def i_def ce_def R1_def R2_def R3_def)
  have sub: "{ce' ! 0, ce' ! 1, ce' ! 2} \<subseteq> {ce ! 0, ce ! 1, ce ! 2}"
  proof (cases "i < length (T (2, 1))")
    case True
    then have len: "length ce = 3" using l by (simp add: T_def i_def ce_def)
    from True have "ce' = order_edges R1 (R2 ! i) ce" by (simp add: ce'_def R3_def)
    then have m: "mset ce' = mset ce" using len by (simp add: mset_order_edges)
    then have "length ce' = 3" using len by (metis size_mset)
    moreover from m have "set ce' = set ce" by (metis set_mset_mset)
    ultimately show ?thesis using len by (simp add: set3)
  next
    case False
    then have "ce' = ce" by (simp add: ce'_def R3_def ce_def list_update_beyond)
    then show ?thesis by simp
  qed
  have R1': "sort_rows g [ce' ! 0, ce' ! 1, ce' ! 2] R1 = R1"
  proof (rule sort_rows_id, intro ballI impI)
    fix e assume e: "e \<in> set [ce' ! 0, ce' ! 1, ce' ! 2]" and lt: "e < length R1"
    from e sub have "e \<in> set [ce ! 0, ce ! 1, ce ! 2]" by auto
    moreover from lt have "e < length (T (1, 0))" by (simp add: R1_def)
    ultimately show "sort_entities 2 (R1 ! e) g = R1 ! e"
      unfolding R1_def by (rule sort_rows_sorts)
  qed
  have R2': "R2[i := sort_entities 3 (R2 ! i) g] = R2"
  proof (cases "i < length (T (2, 0))")
    case True
    then have "R2 ! i = sort_entities 3 (T (2, 0) ! i) g" by (simp add: R2_def)
    then have "sort_entities 3 (R2 ! i) g = R2 ! i" by (simp add: sort_entities_idem)
    then show ?thesis by simp
  next
    case False
    then show ?thesis by (simp add: R2_def list_update_beyond)
  qed
  have R3': "R3[i := order_edges R1 (R2 ! i) ce'] = R3"
  proof (cases "i < length (T (2, 1))")
    case True
    then have len: "length ce = 3" using l by (simp add: T_def i_def ce_def)
    from True have c: "ce' = order_edges R1 (R2 ! i) ce" by (simp add: ce'_def R3_def)
    have "order_edges R1 (R2 ! i) ce' = ce'"
      unfolding c using len by (rule order_edges_idem)
    then show ?thesis by (simp add: ce'_def)
  next
    case False
    then show ?thesis by (simp add: R3_def list_update_beyond)
  qed
  have "ordered_topology (cell\<lparr>mesh := (mesh cell)\<lparr>topology := ordered_topology cell g\<rparr>\<rparr>) g
      = (T((1, 0) := R1, (2, 0) := R2, (2, 1) := R3))
          ((1, 0) := sort_rows g [ce' ! 0, ce' ! 1, ce' ! 2] R1,
           (2, 0) := R2[i := sort_entities 3 (R2 ! i) g],
           (2, 1) := R3[i := order_edges (sort_rows g [ce' ! 0, ce' ! 1, ce' ! 2] R1)
                                (R2[i := sort_entities 3 (R2 ! i) g] ! i) ce'])"
    unfolding T' ordered_topology_def [of "cell\<lparr>mesh := _\<rparr>"]
    by (simp add: Let_def i_def ce'_def)
  also have "\<dots> = T((1, 0) := R1, (2, 0) := R2, (2, 1) := R3)"
    unfolding R1' R2' R3' by (simp add: fun_eq_iff)
  finally show ?thesis unfolding T' .
qed

lemma order_topology:
  assumes "dim cell = 2"
  shows "topology (order cell g) = ordered_topology cell g"
  using order_explicit [OF assms] by simp

text \<open>
  C6. For a cell of a triangle mesh with well-formed connectivity tables, ordering the cell of
  the ordered mesh again changes nothing. One application permutes the entries within rows of
  the connectivity tables only: every row of every table keeps its entries (as a multiset),
  every table keeps its number of rows, and nothing but the topology of the mesh changes.
\<close>

theorem order_idempotent:
  assumes "triangle_cell_wf cell"
  shows "order (cell\<lparr>mesh := order cell g\<rparr>) g = order cell g \<and>
         (\<forall>d e. mset (topology (order cell g) d ! e) = mset (topology (mesh cell) d ! e)) \<and>
         (\<forall>d. length (topology (order cell g) d) = length (topology (mesh cell) d)) \<and>
         (order cell g)\<lparr>topology := topology (mesh cell)\<rparr> = mesh cell"
proof -
  from assms have d: "dim cell = 2"
    and l: "index cell < length (topology (mesh cell) (2, 1)) \<Longrightarrow>
            length (topology (mesh cell) (2, 1) ! index cell) = 3"
    by (auto simp: triangle_cell_wf_def Let_def)
  define T where "T = topology (mesh cell)"
  define i where "i = index cell"
  define ce where "ce = T (2, 1) ! i"
  define R1 where "R1 = sort_rows g [ce ! 0, ce ! 1, ce ! 2] (T (1, 0))"
  define R2 where "R2 = (T (2, 0))[i := sort_entities 3 (T (2, 0) ! i) g]"
  define R3 where "R3 = (T (2, 1))[i := order_edges R1 (R2 ! i) ce]"
  have T': "ordered_topology cell g = T((1, 0) := R1, (2, 0) := R2, (2, 1) := R3)"
    by (simp add: ordered_topology_def Let_def T_def i_def ce_def R1_def R2_def R3_def)
  have o: "order cell g = (mesh cell)\<lparr>topology := ordered_topology cell g\<rparr>"
    by (rule order_explicit [OF d])
  have "order (cell\<lparr>mesh := order cell g\<rparr>) g
      = (order cell g)\<lparr>topology := ordered_topology (cell\<lparr>mesh := order cell g\<rparr>) g\<rparr>"
    using order_explicit [of "cell\<lparr>mesh := order cell g\<rparr>" g] d by simp
  also have "ordered_topology (cell\<lparr>mesh := order cell g\<rparr>) g = ordered_topology cell g"
    unfolding o using d l by (rule ordered_topology_fixed)
  finally have idem: "order (cell\<lparr>mesh := order cell g\<rparr>) g = order cell g"
    by (simp add: o)
  have m1: "mset (R1 ! e) = mset (T (1, 0) ! e)" for e
    unfolding R1_def by (rule mset_sort_rows)
  have m2: "mset (R2 ! e) = mset (T (2, 0) ! e)" for e
  proof (cases "e = i \<and> i < length (T (2, 0))")
    case True
    then show ?thesis by (simp add: R2_def mset_sort_entities)
  next
    case False
    then show ?thesis by (cases "e = i") (simp_all add: R2_def list_update_beyond)
  qed
  have m3: "mset (R3 ! e) = mset (T (2, 1) ! e)" for e
  proof (cases "e = i \<and> i < length (T (2, 1))")
    case True
    then have "length ce = 3" using l by (simp add: T_def i_def ce_def)
    with True show ?thesis by (simp add: R3_def mset_order_edges ce_def)
  next
    case False
    then show ?thesis by (cases "e = i") (simp_all add: R3_def list_update_beyond)
  qed
  have ms: "mset (topology (order cell g) d ! e) = mset (topology (mesh cell) d ! e)" for d e
    unfolding o using m1 m2 m3 by (simp add: T' T_def)
  have ls: "length (topology (order cell g) d) = length (topology (mesh cell) d)" for d
    unfolding o by (simp add: T' T_def R1_def R2_def R3_def)
  have fr: "(order cell g)\<lparr>topology := topology (mesh cell)\<rparr> = mesh cell"
    unfolding o by simp
  from idem ms ls fr show ?thesis by blast
qed

lemma scrambled_wf: "triangle_cell_wf (Cell scrambled_mesh 0)"
  by (simp add: triangle_cell_wf_def Let_def Cell_def scrambled_mesh_def)

lemma scrambled_ordered:
  "topology (order (Cell scrambled_mesh 0) [0, 1, 2, 3]) (2, 0) = [[0, 1, 3], [3, 2, 0]]"
  "topology (order (Cell scrambled_mesh 0) [0, 1, 2, 3]) (2, 1) = [[0, 1, 2], [3, 1, 4]]"
  "topology (order (Cell scrambled_mesh 0) [0, 1, 2, 3]) (1, 0)
     = [[1, 3], [0, 3], [0, 1], [2, 3], [0, 2]]"
  by (simp_all add: order_topology ordered_topology_def Let_def Cell_def scrambled_mesh_def
        sort_rows_def sort_entities_def order_edges_explicit non_incident_def)

theorem order_idempotent_witness:
  "triangle_cell_wf (Cell scrambled_mesh 0) \<and>
   topology (order (Cell scrambled_mesh 0) [0, 1, 2, 3]) (2, 0) = [[0, 1, 3], [3, 2, 0]] \<and>
   topology (order (Cell scrambled_mesh 0) [0, 1, 2, 3]) (2, 1) = [[0, 1, 2], [3, 1, 4]] \<and>
   order ((Cell scrambled_mesh 0)\<lparr>mesh := order (Cell scrambled_mesh 0) [0, 1, 2, 3]\<rparr>) [0, 1, 2, 3]
     = order (Cell scrambled_mesh 0) [0, 1, 2, 3]"
  using order_idempotent [OF scrambled_wf, of "[0, 1, 2, 3]"] scrambled_wf scrambled_ordered
  by simp

section \<open>Boundary extraction\<close>


lemma set_first_occurrences [simp]: "set (first_occurrences xs) = set xs"
  by (simp add: first_occurrences_def)

lemma distinct_first_occurrences [simp]: "distinct (first_occurrences xs)"
  by (simp add: first_occurrences_def)

lemma first_occurrences_Nil [simp]: "first_occurrences [] = []"
  by (simp add: first_occurrences_def)









































section \<open>The closest cell\<close>




























end
